theory Spec2Isabelle
  imports Complex_Main "HOL-Library.Word"
begin

section \<open>JavaScript strings\<close>

text \<open>
  A JavaScript string is a finite sequence of 16-bit code units; \<open>length\<close> of the list is
  the string's \<open>.length\<close>. Literals of the source are ASCII and are written with \<open>lit\<close>.
\<close>

type_synonym jschar = "16 word"
type_synonym jsstring = "jschar list"

definition lit :: "string \<Rightarrow> jsstring" where
  "lit s = map of_char s"

text \<open>
  \<open>String.prototype.trim\<close> removes WhiteSpace and LineTerminator code points from both
  ends: TAB, LF, VT, FF, CR, SP, NBSP, the Unicode space separators, LS, PS and the BOM.
\<close>

definition isTrimSpace :: "jschar \<Rightarrow> bool" where
  "isTrimSpace c \<longleftrightarrow>
     c \<in> {0x9, 0xA, 0xB, 0xC, 0xD, 0x20, 0xA0, 0x1680, 0x2028, 0x2029, 0x202F, 0x205F,
          0x3000, 0xFEFF}
     \<or> (0x2000 \<le> c \<and> c \<le> 0x200A)"

definition js_trim :: "jsstring \<Rightarrow> jsstring" where
  "js_trim s = rev (dropWhile isTrimSpace (rev (dropWhile isTrimSpace s)))"

text \<open>\<open>s.split(sep)\<close> for a separator of one code unit: always at least one piece.\<close>

fun js_split :: "jschar \<Rightarrow> jsstring \<Rightarrow> jsstring list" where
  "js_split sep [] = [[]]"
| "js_split sep (c # cs) =
     (if c = sep then [] # js_split sep cs
      else (case js_split sep cs of [] \<Rightarrow> [[c]] | l # ls \<Rightarrow> (c # l) # ls))"

fun js_startsWith :: "jsstring \<Rightarrow> jsstring \<Rightarrow> bool" where
  "js_startsWith s [] = True"
| "js_startsWith [] (p # ps) = False"
| "js_startsWith (c # cs) (p # ps) = (c = p \<and> js_startsWith cs ps)"

definition js_endsWith :: "jsstring \<Rightarrow> jsstring \<Rightarrow> bool" where
  "js_endsWith s p = js_startsWith (rev s) (rev p)"

text \<open>\<open>s.includes(p)\<close>: \<open>p\<close> occurs at some position of \<open>s\<close>.\<close>

fun js_includes :: "jsstring \<Rightarrow> jsstring \<Rightarrow> bool" where
  "js_includes [] p = (p = [])"
| "js_includes (c # cs) p = (js_startsWith (c # cs) p \<or> js_includes cs p)"

text \<open>
  \<open>(s.match(/\/\//g) || []).length\<close>: the number of matches of two slashes, found from
  left to right, each search resuming after the previous match.
\<close>

fun countSlashSlash :: "jsstring \<Rightarrow> nat" where
  "countSlashSlash (c # d # cs) =
     (if c = 0x2F \<and> d = 0x2F then Suc (countSlashSlash cs) else countSlashSlash (d # cs))"
| "countSlashSlash cs = 0"

section \<open>The refactor service: metrics\<close>

text \<open>
  Numbers of the source are IEEE doubles. Line counts and lengths are integers, which
  doubles hold exactly; the ratio and the score are modelled as exact rationals. The
  comparison \<open>refactoredCode.length > originalCode.length * 0.8\<close> has the same truth value
  in doubles as in exact arithmetic for lengths below \<open>2^53\<close> (the product rounds to the
  integer when the length is a multiple of five and is at least 0.2 away from an integer
  otherwise), and the sums of the score's bonuses round to the decimal values.
\<close>

record metrics =
  originalLines :: nat
  refactoredLines :: nat
  linesReduced :: int
  compressionRatio :: rat
  qualityScore :: rat

definition estimateQualityScore :: "jsstring \<Rightarrow> jsstring \<Rightarrow> rat" where
  "estimateQualityScore originalCode refactoredCode =
     (let score = 3;
          hasAsyncAwait = (js_includes refactoredCode (lit ''async'')
                           \<and> js_includes refactoredCode (lit ''await''));
          hasComments = (countSlashSlash refactoredCode > countSlashSlash originalCode);
          hasBetterNaming = (of_nat (length refactoredCode)
                             > of_nat (length originalCode) * (8 / 10 :: rat));
          score = (if hasAsyncAwait \<and> js_includes originalCode (lit ''callback'')
                   then score + 5 / 10 else score);
          score = (if hasComments then score + 3 / 10 else score);
          score = (if hasBetterNaming then score + 2 / 10 else score)
      in min 5 (max 1 score))"

definition calculateMetrics :: "jsstring \<Rightarrow> jsstring \<Rightarrow> metrics" where
  "calculateMetrics originalCode refactoredCode =
     (let originalLines = length (filter (\<lambda>line. js_trim line \<noteq> []) (js_split 0xA originalCode));
          refactoredLines = length (filter (\<lambda>line. js_trim line \<noteq> []) (js_split 0xA refactoredCode))
      in \<lparr> originalLines = originalLines,
           refactoredLines = refactoredLines,
           linesReduced = max 0 (int originalLines - int refactoredLines),
           compressionRatio = (if originalLines > 0
                               then of_nat refactoredLines / of_nat originalLines else 1),
           qualityScore = estimateQualityScore originalCode refactoredCode \<rparr>)"

section \<open>The refactor service: cleaning the reply\<close>

text \<open>\<open>[\w]\<close> of a regular expression without flags: ASCII letters, digits and underscore.\<close>

definition isWordChar :: "jschar \<Rightarrow> bool" where
  "isWordChar c \<longleftrightarrow>
     (0x30 \<le> c \<and> c \<le> 0x39) \<or> (0x41 \<le> c \<and> c \<le> 0x5A) \<or> c = 0x5F \<or> (0x61 \<le> c \<and> c \<le> 0x7A)"

text \<open>
  The match of \<open>/^```[\w]*\n/\<close>: three backticks at the start of the text, the longest
  run of word characters, then a line feed. The result is the text after the match. A
  shorter run cannot match, since the code unit after it is a word character, not a line
  feed.
\<close>

definition matchOpeningFence :: "jsstring \<Rightarrow> jsstring option" where
  "matchOpeningFence s =
     (if js_startsWith s (lit ''```'')
      then (case dropWhile isWordChar (drop 3 s) of
              [] \<Rightarrow> None
            | c # rest \<Rightarrow> if c = 0xA then Some rest else None)
      else None)"

definition replaceOpeningFence :: "jsstring \<Rightarrow> jsstring" where
  "replaceOpeningFence s = (case matchOpeningFence s of None \<Rightarrow> s | Some rest \<Rightarrow> rest)"

text \<open>
  \<open>.replace(/\n```$/, '')\<close>: without the multiline flag \<open>$\<close> matches at the end of the
  text only, so the one possible match is the last four code units.
\<close>

definition replaceClosingFence :: "jsstring \<Rightarrow> jsstring" where
  "replaceClosingFence s =
     (if js_endsWith s (0xA # lit ''```'') then take (length s - 4) s else s)"

definition cleanFences :: "jsstring \<Rightarrow> jsstring" where
  "cleanFences s = js_trim (replaceClosingFence (replaceOpeningFence s))"

section \<open>The refactor service: the call to the provider\<close>

record settings =
  addComments :: bool
  improveNaming :: bool
  removeDeadCode :: bool

definition noSettings :: settings where
  "noSettings = \<lparr> addComments = False, improveNaming = False, removeDeadCode = False \<rparr>"

text \<open>
  What \<open>await axios.post(...)\<close> does. It resolves with a response, of which the service
  reads \<open>data.choices[0].message.content\<close> and \<open>data.usage\<close>, or it rejects with an error
  (network failure, timeout, status outside 2xx). Reading the content of a reply that
  lacks it throws a \<open>TypeError\<close> inside the same \<open>try\<close> block; \<open>NoContent m\<close> is such a
  reply, \<open>m\<close> the message of the \<open>TypeError\<close>.

  An error carries its \<open>message\<close> and, when the provider answered, a \<open>response\<close> with the
  HTTP \<open>status\<close> and the value of \<open>data?.error?.message\<close> (\<open>None\<close> when \<open>data\<close>,
  \<open>data.error\<close> or its \<open>message\<close> is undefined).
\<close>

record error_response =
  status :: nat
  data_error_message :: "jsstring option"

record axios_error =
  err_message :: jsstring
  err_response :: "error_response option"

datatype reply_content = Content jsstring | NoContent jsstring

datatype 'u axios_outcome = Resolved reply_content 'u | Rejected axios_error

text \<open>
  The request is the prompt built from the code, the language and the settings, with fixed
  generation parameters; the outcome of a call is therefore given as a function of these three.
\<close>

type_synonym 'u provider = "jsstring \<Rightarrow> jsstring \<Rightarrow> settings \<Rightarrow> 'u axios_outcome"

datatype error_code = HttpStatus nat | UNKNOWN_ERROR

text \<open>
  \<open>Success c m u\<close> is \<open>{success: true, refactoredCode: c, metrics: m, tokenUsage: u}\<close>;
  \<open>Failure m c\<close> is \<open>{success: false, error: {message: m, code: c}}\<close>.
\<close>

datatype 'u refactor_result =
    Success jsstring metrics 'u
  | Failure jsstring error_code

text \<open>
  The \<open>catch\<close> block: \<open>a || b\<close> is \<open>a\<close> unless \<open>a\<close> is undefined, the empty string or
  zero.
\<close>

definition failureOf :: "axios_error \<Rightarrow> 'u refactor_result" where
  "failureOf error =
     Failure
       (case err_response error of
          None \<Rightarrow> err_message error
        | Some response \<Rightarrow>
            (case data_error_message response of
               None \<Rightarrow> err_message error
             | Some m \<Rightarrow> if m \<noteq> [] then m else err_message error))
       (case err_response error of
          None \<Rightarrow> UNKNOWN_ERROR
        | Some response \<Rightarrow>
            if status response \<noteq> 0 then HttpStatus (status response) else UNKNOWN_ERROR)"

definition refactorCode :: "'u provider \<Rightarrow> jsstring \<Rightarrow> jsstring \<Rightarrow> settings \<Rightarrow> 'u refactor_result" where
  "refactorCode post originalCode language settings =
     (case post originalCode language settings of
        Resolved (Content text) usage \<Rightarrow>
          (let refactoredCode = js_trim text;
               cleanedCode = cleanFences refactoredCode
           in Success cleanedCode (calculateMetrics originalCode cleanedCode) usage)
      | Resolved (NoContent m) usage \<Rightarrow>
          failureOf \<lparr> err_message = m, err_response = None \<rparr>
      | Rejected error \<Rightarrow> failureOf error)"

section \<open>The routes\<close>

subsection \<open>Platform functions the routes use\<close>

text \<open>
  \<open>String.prototype.toLowerCase\<close> on the ASCII letters; code units outside \<open>A\<close> to \<open>Z\<close>
  are left as they are. The routes only compare the result with the ASCII literals
  \<open>.js\<close>, \<open>.jsx\<close>, \<open>.ts\<close>, \<open>.tsx\<close>, \<open>.json\<close> and \<open>.zip\<close>, and on these comparisons
  the Unicode case mapping agrees with the ASCII one: the only code points beyond ASCII
  whose lower case holds an ASCII letter are U+212A, which gives \<open>k\<close>, and U+0130, which
  gives \<open>i\<close> followed by U+0307, and neither completes one of the literals.
\<close>

definition js_toLowerCase :: "jsstring \<Rightarrow> jsstring" where
  "js_toLowerCase s = map (\<lambda>c. if 0x41 \<le> c \<and> c \<le> 0x5A then c + 0x20 else c) s"

text \<open>
  \<open>path.extname\<close> of Node.js on POSIX: of the last path component (trailing slashes
  dropped), the text from the last dot on; empty when the component has no dot, when the
  last dot is its first code unit, or when the component is \<open>..\<close>.
\<close>

definition extname :: "jsstring \<Rightarrow> jsstring" where
  "extname path =
     (let part = rev (takeWhile (\<lambda>c. c \<noteq> 0x2F) (dropWhile (\<lambda>c. c = 0x2F) (rev path)));
          ext = rev (takeWhile (\<lambda>c. c \<noteq> 0x2E) (rev part));
          stem = take (length part - length ext - 1) part
      in if 0x2E \<notin> set part \<or> stem = [] \<or> part = [0x2E, 0x2E] then [] else 0x2E # ext)"



text \<open>\<open>Array.prototype.join\<close>; \<open>null\<close> elements print as the empty string.\<close>

fun js_join :: "jsstring \<Rightarrow> jsstring option list \<Rightarrow> jsstring" where
  "js_join sep [] = []"
| "js_join sep [x] = (case x of None \<Rightarrow> [] | Some s \<Rightarrow> s)"
| "js_join sep (x # y # ys) = (case x of None \<Rightarrow> [] | Some s \<Rightarrow> s) @ sep @ js_join sep (y # ys)"

subsection \<open>Responses\<close>

record batch_file =
  name :: jsstring
  content :: jsstring

record batch_result =
  entry_name :: jsstring
  entry_refactoredCode :: jsstring
  entry_error :: "jsstring option"

text \<open>
  The archive library, adm-zip, is not part of the source. An archive is given by its
  entries, a map from the stored path to the stored text (the text whose UTF-8 bytes the
  entry holds); \<open>new AdmZip()\<close> is the empty map. What \<open>addFile\<close> does to an archive is a
  parameter of the archive route: \<open>addFile outputZip path text\<close> stands for the archive
  after \<open>outputZip.addFile(path, Buffer.from(text, 'utf-8'))\<close>.
\<close>

type_synonym archive = "jsstring \<rightharpoonup> jsstring"

text \<open>
  \<open>JsonError n m d\<close> is \<open>res.status(n).json({error: {message: m, details: d}})\<close>;
  the other responses are sent with the default status 200. \<open>ZipArchive outputZip\<close> is
  the reply whose body is \<open>outputZip.toBuffer()\<close>, sent as \<open>application/zip\<close>.
\<close>

datatype 'u response =
    JsonError nat jsstring "jsstring option"
  | JsonRefactored jsstring metrics 'u
  | JsonFiles "batch_result list"
  | ZipArchive archive

subsection \<open>POST /\<close>

record refactor_request =
  req_code :: "jsstring option"
  req_language :: "jsstring option"
  req_settings :: "settings option"

text \<open>
  \<open>!code || !language\<close>: a field that is undefined or the empty string is rejected. The
  service never throws, so the handler's own \<open>catch\<close> block is not reached.
\<close>

definition postRefactor :: "'u provider \<Rightarrow> refactor_request \<Rightarrow> 'u response" where
  "postRefactor post body =
     (case (req_code body, req_language body) of
        (Some code, Some language) \<Rightarrow>
          if code = [] \<or> language = []
          then JsonError 400 (lit ''Code and language are required'') None
          else (case refactorCode post code language
                       (case req_settings body of None \<Rightarrow> noSettings | Some s \<Rightarrow> s) of
                  Failure m c \<Rightarrow> JsonError 500 (lit ''Refactoring failed'') (Some m)
                | Success cleanedCode ms usage \<Rightarrow> JsonRefactored cleanedCode ms usage)
      | _ \<Rightarrow> JsonError 400 (lit ''Code and language are required'') None)"

subsection \<open>POST /upload\<close>

record uploaded_file =
  originalname :: jsstring
  mimetype :: jsstring

definition allowedTypes :: "jsstring list" where
  "allowedTypes = [lit ''application/javascript'', lit ''text/javascript'', lit ''text/plain'']"

definition allowedExtensions :: "jsstring list" where
  "allowedExtensions = [lit ''.js'', lit ''.jsx'', lit ''.ts'', lit ''.tsx'', lit ''.json'']"

text \<open>
  A file filter answers \<open>cb(null, true)\<close>, here \<open>Inr ()\<close>, or \<open>cb(new Error(m))\<close>, here
  \<open>Inl m\<close>. The error has no \<open>status\<close> property.
\<close>

definition uploadFileFilter :: "uploaded_file \<Rightarrow> jsstring + unit" where
  "uploadFileFilter file =
     (let hasValidType = (mimetype file \<in> set allowedTypes);
          hasValidExtension =
            list_ex (\<lambda>ext. js_endsWith (js_toLowerCase (originalname file)) ext) allowedExtensions
      in if hasValidType \<or> hasValidExtension then Inr ()
         else Inl (lit ''Invalid file type. Only JavaScript files are allowed.''))"

definition uploadZipFileFilter :: "uploaded_file \<Rightarrow> jsstring + unit" where
  "uploadZipFileFilter file =
     (let isZip = (mimetype file = lit ''application/zip''
                   \<or> js_endsWith (js_toLowerCase (originalname file)) (lit ''.zip''))
      in if isZip then Inr () else Inl (lit ''Invalid file type. Only ZIP files are allowed.''))"

text \<open>
  The application's error-handling middleware, for an error with the given \<open>status\<close>
  property (\<open>None\<close> when undefined) and message; \<open>isDevelopment\<close> is
  \<open>process.env.NODE_ENV === 'development'\<close>. The body repeats the status and, in
  development, adds the stack.
\<close>

definition errorMiddleware :: "bool \<Rightarrow> nat option \<Rightarrow> jsstring \<Rightarrow> 'u response" where
  "errorMiddleware isDevelopment err_status err_msg =
     JsonError (case err_status of None \<Rightarrow> 500 | Some n \<Rightarrow> if n \<noteq> 0 then n else 500)
       (if isDevelopment then err_msg else lit ''Internal Server Error'') None"

text \<open>
  An upload route is the multer middleware followed by the handler. When the file filter
  answers with an error, multer passes it to \<open>next\<close>, the handler is skipped and the
  error-handling middleware replies. \<open>None\<close> stands for an accepted file, which the handler
  goes on to process.
\<close>

definition uploadRoute :: "bool \<Rightarrow> uploaded_file \<Rightarrow> 'u response option" where
  "uploadRoute isDevelopment file =
     (case uploadFileFilter file of
        Inl m \<Rightarrow> Some (errorMiddleware isDevelopment None m)
      | Inr _ \<Rightarrow> None)"

definition uploadZipRoute :: "bool \<Rightarrow> uploaded_file \<Rightarrow> 'u response option" where
  "uploadZipRoute isDevelopment file =
     (case uploadZipFileFilter file of
        Inl m \<Rightarrow> Some (errorMiddleware isDevelopment None m)
      | Inr _ \<Rightarrow> None)"

text \<open>The language the upload handler detects from the file name.\<close>

definition uploadLanguage :: "jsstring \<Rightarrow> jsstring" where
  "uploadLanguage filename =
     (if js_endsWith filename (lit ''.tsx'') \<or> js_endsWith filename (lit ''.jsx'')
      then lit ''react''
      else if js_endsWith filename (lit ''.ts'') then lit ''typescript''
      else if js_includes filename (lit ''server'') \<or> js_includes filename (lit ''api'')
      then lit ''nodejs''
      else lit ''javascript'')"

subsection \<open>POST /refactor-zip and POST /refactor-zip-animated\<close>

text \<open>The language both batch routes derive from a file's name.\<close>

definition batchLanguage :: "jsstring \<Rightarrow> jsstring" where
  "batchLanguage file_name =
     (let ext = js_toLowerCase (extname file_name)
      in if ext = lit ''.jsx'' \<or> ext = lit ''.tsx'' then lit ''react''
         else if ext = lit ''.ts'' then lit ''typescript''
         else if ext = lit ''.json'' then lit ''json''
         else lit ''javascript'')"

text \<open>\<open>!x\<close> for a string that may be null.\<close>

definition js_not :: "jsstring option \<Rightarrow> bool" where
  "js_not x = (case x of None \<Rightarrow> True | Some s \<Rightarrow> s = [])"





definition animatedEntry :: "'u refactor_result \<Rightarrow> batch_file \<Rightarrow> batch_result" where
  "animatedEntry result file =
     (case result of
        Success code ms usage \<Rightarrow>
          if code \<noteq> []
          then \<lparr> entry_name = name file, entry_refactoredCode = code, entry_error = None \<rparr>
          else \<lparr> entry_name = name file, entry_refactoredCode = content file,
                 entry_error = Some (lit ''Unknown error'') \<rparr>
      | Failure m c \<Rightarrow>
          \<lparr> entry_name = name file, entry_refactoredCode = content file,
            entry_error = Some (if m \<noteq> [] then m else lit ''Unknown error'') \<rparr>)"

fun animatedLoop :: "(nat \<Rightarrow> 'u provider) \<Rightarrow> nat \<Rightarrow> batch_file list \<Rightarrow> batch_result list \<Rightarrow> batch_result list" where
  "animatedLoop posts i [] results = results"
| "animatedLoop posts i (file # files) results =
     (let language = batchLanguage (name file);
          result = refactorCode (posts i) (content file) language noSettings
      in animatedLoop posts (Suc i) files (results @ [animatedEntry result file]))"

definition postRefactorZipAnimated :: "(nat \<Rightarrow> 'u provider) \<Rightarrow> batch_file list option \<Rightarrow> 'u response" where
  "postRefactorZipAnimated posts files =
     (case files of
        None \<Rightarrow> JsonError 400 (lit ''No files provided'') None
      | Some fs \<Rightarrow>
          if length fs = 0 then JsonError 400 (lit ''No files provided'') None
          else (let results = animatedLoop posts 0 fs [];
                    allFailed = list_all (\<lambda>f. \<not> js_not (entry_error f)) results
                in if allFailed
                   then JsonError 500 (lit ''All files failed to refactor'')
                          (Some (js_join (lit ''; '') (map entry_error results)))
                   else JsonFiles results))"

section \<open>Notions of the specification\<close>

subsection \<open>The metrics as the specification words them\<close>

text \<open>
  A text consists of lines when the lines, none of which holds a line feed, give the text
  once they are joined with a line feed between each two. A line is non-blank when it
  holds a code unit that is not white space.
\<close>

fun joinLines :: "jsstring list \<Rightarrow> jsstring" where
  "joinLines [] = []"
| "joinLines [l] = l"
| "joinLines (l # m # ls) = l @ 0xA # joinLines (m # ls)"

definition linesOf :: "jsstring list \<Rightarrow> jsstring \<Rightarrow> bool" where
  "linesOf ls s \<longleftrightarrow> ls \<noteq> [] \<and> (\<forall>l \<in> set ls. 0xA \<notin> set l) \<and> joinLines ls = s"

definition nonBlankCount :: "jsstring list \<Rightarrow> nat" where
  "nonBlankCount ls = length (filter (\<lambda>l. \<exists>c \<in> set l. \<not> isTrimSpace c) ls)"

text \<open>A text contains a word when the word stands between some prefix and some suffix.\<close>

definition containsText :: "jsstring \<Rightarrow> jsstring \<Rightarrow> bool" where
  "containsText s p \<longleftrightarrow> (\<exists>pre post. s = pre @ p @ post)"

text \<open>
  The score as the specification words it: the third bonus is granted when the refactored
  length is at least 80% of the original length.
\<close>

definition spec_qualityScore :: "jsstring \<Rightarrow> jsstring \<Rightarrow> rat" where
  "spec_qualityScore originalCode refactoredCode =
     min 5 (max 1 (3
       + (if js_includes refactoredCode (lit ''async'') \<and> js_includes refactoredCode (lit ''await'')
             \<and> js_includes originalCode (lit ''callback'') then 5 / 10 else 0)
       + (if countSlashSlash refactoredCode > countSlashSlash originalCode then 3 / 10 else 0)
       + (if 10 * length refactoredCode \<ge> 8 * length originalCode then 2 / 10 else 0)))"

subsection \<open>Fenced and unfenced text\<close>

text \<open>
  A text starts with a fence when it is three backticks, a tag of word characters (maybe
  empty), a line feed and a rest; it ends with a fence when it is a body, a line feed and
  three backticks; it is trimmed when neither its first nor its last code unit is white
  space.
\<close>

definition startsWithFence :: "jsstring \<Rightarrow> bool" where
  "startsWithFence s \<longleftrightarrow>
     (\<exists>tag rest. s = lit ''```'' @ tag @ 0xA # rest \<and> list_all isWordChar tag)"

definition endsWithFence :: "jsstring \<Rightarrow> bool" where
  "endsWithFence s \<longleftrightarrow> (\<exists>body. s = body @ 0xA # lit ''```'')"

definition trimmed :: "jsstring \<Rightarrow> bool" where
  "trimmed s \<longleftrightarrow> s = [] \<or> (\<not> isTrimSpace (hd s) \<and> \<not> isTrimSpace (last s))"


subsection \<open>File names\<close>

text \<open>A name has a suffix when it is some text followed by the suffix.\<close>

definition hasSuffix :: "jsstring \<Rightarrow> jsstring \<Rightarrow> bool" where
  "hasSuffix s p \<longleftrightarrow> (\<exists>pre. s = pre @ p)"

subsection \<open>The service's failure result and the single-snippet route, as worded\<close>

text \<open>
  The failure result as the specification words it: the provider's message when the reply
  has one, the provider's status when there is a reply.
\<close>

definition spec_failureOf :: "axios_error \<Rightarrow> 'u refactor_result" where
  "spec_failureOf error =
     Failure
       (case err_response error of
          None \<Rightarrow> err_message error
        | Some response \<Rightarrow>
            (case data_error_message response of None \<Rightarrow> err_message error | Some m \<Rightarrow> m))
       (case err_response error of
          None \<Rightarrow> UNKNOWN_ERROR
        | Some response \<Rightarrow> HttpStatus (status response))"

text \<open>
  The single-snippet route as the specification words it: a request is rejected when a
  field is absent, and delegated otherwise.
\<close>

definition spec_postRefactor :: "'u provider \<Rightarrow> refactor_request \<Rightarrow> 'u response" where
  "spec_postRefactor post body =
     (case (req_code body, req_language body) of
        (Some code, Some language) \<Rightarrow>
          (case refactorCode post code language
                  (case req_settings body of None \<Rightarrow> noSettings | Some s \<Rightarrow> s) of
             Failure m c \<Rightarrow> JsonError 500 (lit ''Refactoring failed'') (Some m)
           | Success cleanedCode ms usage \<Rightarrow> JsonRefactored cleanedCode ms usage)
      | _ \<Rightarrow> JsonError 400 (lit ''Code and language are required'') None)"

subsection \<open>Entries of a batch\<close>

text \<open>
  The result of the service for the file at position \<open>i\<close> of a batch. An entry fails when
  the service reports a failure or returns no code; its message is then the service's
  error message, or \<open>Unknown error\<close> when there is none.
\<close>

definition batchResult :: "(nat \<Rightarrow> 'u provider) \<Rightarrow> batch_file list \<Rightarrow> nat \<Rightarrow> 'u refactor_result" where
  "batchResult posts files i =
     refactorCode (posts i) (content (files ! i)) (batchLanguage (name (files ! i))) noSettings"

definition entryFailed :: "'u refactor_result \<Rightarrow> bool" where
  "entryFailed result = (case result of Success code ms usage \<Rightarrow> code = [] | Failure m c \<Rightarrow> True)"

definition entryMessage :: "'u refactor_result \<Rightarrow> jsstring" where
  "entryMessage result =
     (case result of
        Success code ms usage \<Rightarrow> lit ''Unknown error''
      | Failure m c \<Rightarrow> if m = [] then lit ''Unknown error'' else m)"

text \<open>
  The animated route as the specification words it: an entry fails when the service
  reports a failure, and keeps the service's error message.
\<close>

definition spec_animatedEntry :: "'u refactor_result \<Rightarrow> batch_file \<Rightarrow> batch_result" where
  "spec_animatedEntry result f =
     (case result of
        Success code ms usage \<Rightarrow>
          \<lparr> entry_name = name f, entry_refactoredCode = code, entry_error = None \<rparr>
      | Failure m c \<Rightarrow>
          \<lparr> entry_name = name f, entry_refactoredCode = content f, entry_error = Some m \<rparr>)"

definition spec_postRefactorZipAnimated ::
  "(nat \<Rightarrow> 'u provider) \<Rightarrow> batch_file list \<Rightarrow> 'u response" where
  "spec_postRefactorZipAnimated posts files =
     (let results = map (\<lambda>i. spec_animatedEntry (batchResult posts files i) (files ! i))
                      [0..<length files]
      in if list_all (\<lambda>f. entry_error f \<noteq> None) results
         then JsonError 500 (lit ''All files failed to refactor'')
                (Some (js_join (lit ''; '') (map entry_error results)))
         else JsonFiles results)"

subsection \<open>The archive of a batch\<close>








section \<open>Properties of the string operations\<close>

lemma js_startsWith_iff: "js_startsWith s p \<longleftrightarrow> (\<exists>post. s = p @ post)"
  by (induction s p rule: js_startsWith.induct) auto

lemma js_endsWith_iff: "js_endsWith s p \<longleftrightarrow> (\<exists>pre. s = pre @ p)"
proof -
  have "js_endsWith s p \<longleftrightarrow> (\<exists>post. rev s = rev p @ post)"
    by (simp add: js_endsWith_def js_startsWith_iff)
  also have "\<dots> \<longleftrightarrow> (\<exists>pre. s = pre @ p)"
  proof
    assume "\<exists>post. rev s = rev p @ post"
    then obtain post where "rev s = rev p @ post" ..
    then have "s = rev post @ p" by (simp add: rev_swap)
    then show "\<exists>pre. s = pre @ p" ..
  next
    assume "\<exists>pre. s = pre @ p"
    then obtain pre where "s = pre @ p" ..
    then have "rev s = rev p @ rev pre" by simp
    then show "\<exists>post. rev s = rev p @ post" ..
  qed
  finally show ?thesis .
qed

lemma js_includes_iff: "js_includes s p \<longleftrightarrow> containsText s p"
proof (induction s)
  case Nil
  show ?case by (auto simp: containsText_def)
next
  case (Cons c cs)
  show ?case
  proof
    assume "js_includes (c # cs) p"
    then consider "js_startsWith (c # cs) p" | "js_includes cs p" by auto
    then show "containsText (c # cs) p"
    proof cases
      case 1
      then obtain post where "c # cs = p @ post" by (auto simp: js_startsWith_iff)
      then have "c # cs = [] @ p @ post" by simp
      then show ?thesis unfolding containsText_def by blast
    next
      case 2
      then obtain pre post where "cs = pre @ p @ post"
        using Cons.IH by (auto simp: containsText_def)
      then have "c # cs = (c # pre) @ p @ post" by simp
      then show ?thesis unfolding containsText_def by blast
    qed
  next
    assume "containsText (c # cs) p"
    then obtain pre post where eq: "c # cs = pre @ p @ post"
      by (auto simp: containsText_def)
    show "js_includes (c # cs) p"
    proof (cases pre)
      case Nil
      with eq have "js_startsWith (c # cs) p" by (auto simp: js_startsWith_iff)
      then show ?thesis by simp
    next
      case (Cons a pre')
      with eq have "cs = pre' @ p @ post" by simp
      then have "containsText cs p" unfolding containsText_def by blast
      then show ?thesis using Cons.IH by simp
    qed
  qed
qed

lemma js_trim_nonempty_iff: "js_trim line \<noteq> [] \<longleftrightarrow> (\<exists>c \<in> set line. \<not> isTrimSpace c)"
proof -
  define rest where "rest = dropWhile isTrimSpace line"
  have "rest = [] \<or> \<not> isTrimSpace (hd rest)"
    unfolding rest_def using hd_dropWhile [of isTrimSpace line] by blast
  then have "(\<forall>c \<in> set rest. isTrimSpace c) \<longleftrightarrow> rest = []"
    by (cases rest) auto
  moreover have "js_trim line = [] \<longleftrightarrow> (\<forall>c \<in> set rest. isTrimSpace c)"
    by (simp add: js_trim_def rest_def dropWhile_eq_Nil_conv)
  moreover have "rest = [] \<longleftrightarrow> (\<forall>c \<in> set line. isTrimSpace c)"
    by (simp add: rest_def dropWhile_eq_Nil_conv)
  ultimately show ?thesis by blast
qed

section \<open>Line metrics\<close>

lemma js_split_no_sep: "sep \<notin> set l \<Longrightarrow> js_split sep l = [l]"
  by (induction l) auto

lemma js_split_append_sep:
  "sep \<notin> set l \<Longrightarrow> js_split sep (l @ sep # r) = l # js_split sep r"
  by (induction l) auto

lemma js_split_joinLines:
  "ls \<noteq> [] \<Longrightarrow> \<forall>l \<in> set ls. 0xA \<notin> set l \<Longrightarrow> js_split 0xA (joinLines ls) = ls"
proof (induction ls rule: joinLines.induct)
  case 1
  then show ?case by simp
next
  case (2 l)
  then show ?case by (simp add: js_split_no_sep)
next
  case (3 l m ls)
  then show ?case by (simp add: js_split_append_sep)
qed

lemma js_split_of_lines: "linesOf ls s \<Longrightarrow> js_split 0xA s = ls"
  using js_split_joinLines [of ls] by (auto simp: linesOf_def)

lemma joinLines_Cons_Cons: "joinLines ((c # l) # ls) = c # joinLines (l # ls)"
  by (cases ls) simp_all

lemma linesOf_js_split: "linesOf (js_split 0xA s) s"
proof (induction s)
  case Nil
  show ?case by (simp add: linesOf_def)
next
  case (Cons c cs)
  show ?case
  proof (cases "c = 0xA")
    case True
    with Cons show ?thesis
      by (cases "js_split 0xA cs") (auto simp: linesOf_def)
  next
    case False
    with Cons show ?thesis
      by (cases "js_split 0xA cs") (auto simp: linesOf_def joinLines_Cons_Cons)
  qed
qed

text \<open>
  C2. For every pair of texts, \<open>calculateMetrics\<close> counts the non-blank lines of each:
  either text consists of lines, and whatever lines a text consists of, the count is the
  number of those that are non-blank. It returns
  \<open>linesReduced = max(0, originalLines - refactoredLines)\<close>, which is never negative,
  also when the refactored text has more lines, and it returns
  \<open>compressionRatio = refactoredLines / originalLines\<close> when the original has a
  non-blank line and \<open>1\<close> when it has none.
\<close>

theorem calculateMetrics_lines:
  "(\<exists>ols. linesOf ols originalCode) \<and> (\<exists>rls. linesOf rls refactoredCode)
   \<and> (\<forall>ols rls. linesOf ols originalCode \<and> linesOf rls refactoredCode \<longrightarrow>
         originalLines (calculateMetrics originalCode refactoredCode) = nonBlankCount ols
         \<and> refactoredLines (calculateMetrics originalCode refactoredCode) = nonBlankCount rls
         \<and> linesReduced (calculateMetrics originalCode refactoredCode)
             = max 0 (int (nonBlankCount ols) - int (nonBlankCount rls))
         \<and> 0 \<le> linesReduced (calculateMetrics originalCode refactoredCode)
         \<and> (0 < nonBlankCount ols \<longrightarrow>
               compressionRatio (calculateMetrics originalCode refactoredCode)
                 = of_nat (nonBlankCount rls) / of_nat (nonBlankCount ols))
         \<and> (nonBlankCount ols = 0 \<longrightarrow>
               compressionRatio (calculateMetrics originalCode refactoredCode) = 1))"
proof (intro conjI allI impI)
  show "\<exists>ols. linesOf ols originalCode" using linesOf_js_split by blast
  show "\<exists>rls. linesOf rls refactoredCode" using linesOf_js_split by blast
next
  fix ols rls
  assume "linesOf ols originalCode \<and> linesOf rls refactoredCode"
  then have o: "js_split 0xA originalCode = ols" and r: "js_split 0xA refactoredCode = rls"
    by (simp_all add: js_split_of_lines)
  show "originalLines (calculateMetrics originalCode refactoredCode) = nonBlankCount ols"
    "refactoredLines (calculateMetrics originalCode refactoredCode) = nonBlankCount rls"
    "linesReduced (calculateMetrics originalCode refactoredCode)
             = max 0 (int (nonBlankCount ols) - int (nonBlankCount rls))"
    "0 \<le> linesReduced (calculateMetrics originalCode refactoredCode)"
    by (simp_all add: calculateMetrics_def nonBlankCount_def js_trim_nonempty_iff Let_def o r)
  show "compressionRatio (calculateMetrics originalCode refactoredCode)
                 = of_nat (nonBlankCount rls) / of_nat (nonBlankCount ols)"
    if "0 < nonBlankCount ols"
    using that
    by (simp add: calculateMetrics_def nonBlankCount_def js_trim_nonempty_iff Let_def o r)
  show "compressionRatio (calculateMetrics originalCode refactoredCode) = 1"
    if "nonBlankCount ols = 0"
    using that
    by (simp add: calculateMetrics_def nonBlankCount_def js_trim_nonempty_iff Let_def o r)
qed


theorem calculateMetrics_lines_witness:
  "linesOf [lit ''ab c'', [], [0x20, 0x9], lit ''d e'']
     (lit ''ab c'' @ [0xA, 0xA, 0x20, 0x9, 0xA] @ lit ''d e'')
   \<and> linesOf [lit ''xy z''] (lit ''xy z'')
   \<and> originalLines (calculateMetrics (lit ''ab c'' @ [0xA, 0xA, 0x20, 0x9, 0xA] @ lit ''d e'')
         (lit ''xy z'')) = 2
   \<and> refactoredLines (calculateMetrics (lit ''ab c'' @ [0xA, 0xA, 0x20, 0x9, 0xA] @ lit ''d e'')
         (lit ''xy z'')) = 1
   \<and> linesReduced (calculateMetrics (lit ''ab c'' @ [0xA, 0xA, 0x20, 0x9, 0xA] @ lit ''d e'')
         (lit ''xy z'')) = 1
   \<and> compressionRatio (calculateMetrics (lit ''ab c'' @ [0xA, 0xA, 0x20, 0x9, 0xA] @ lit ''d e'')
         (lit ''xy z'')) = 1 / 2
   \<and> linesReduced (calculateMetrics (lit ''xy z'')
         (lit ''ab c'' @ [0xA, 0xA, 0x20, 0x9, 0xA] @ lit ''d e'')) = 0
   \<and> compressionRatio (calculateMetrics (lit ''xy z'')
         (lit ''ab c'' @ [0xA, 0xA, 0x20, 0x9, 0xA] @ lit ''d e'')) = 2
   \<and> linesOf [[]] []
   \<and> originalLines (calculateMetrics [] (lit ''xy z'')) = 0
   \<and> compressionRatio (calculateMetrics [] (lit ''xy z'')) = 1"
proof -
  define a where "a = lit ''ab c'' @ [0xA, 0xA, 0x20, 0x9, 0xA] @ lit ''d e''"
  define b where "b = lit ''xy z''"
  define als where "als = [lit ''ab c'', [], [0x20, 0x9], lit ''d e'']"
  have la: "linesOf als a" by (simp add: linesOf_def als_def a_def lit_def)
  have lb: "linesOf [b] b" by (simp add: linesOf_def b_def lit_def)
  have le: "linesOf [[]] []" by (simp add: linesOf_def)
  have ca: "nonBlankCount als = 2"
    by (simp add: nonBlankCount_def als_def lit_def isTrimSpace_def)
  have cb: "nonBlankCount [b] = 1"
    by (simp add: nonBlankCount_def b_def lit_def isTrimSpace_def)
  have ce: "nonBlankCount [[]] = 0" by (simp add: nonBlankCount_def)
  from calculateMetrics_lines [of a b] la lb
  have ab: "originalLines (calculateMetrics a b) = nonBlankCount als
     \<and> refactoredLines (calculateMetrics a b) = nonBlankCount [b]
     \<and> linesReduced (calculateMetrics a b)
         = max 0 (int (nonBlankCount als) - int (nonBlankCount [b]))
     \<and> (0 < nonBlankCount als \<longrightarrow>
           compressionRatio (calculateMetrics a b)
             = of_nat (nonBlankCount [b]) / of_nat (nonBlankCount als))"
    by blast
  from calculateMetrics_lines [of b a] la lb
  have ba: "linesReduced (calculateMetrics b a)
         = max 0 (int (nonBlankCount [b]) - int (nonBlankCount als))
     \<and> (0 < nonBlankCount [b] \<longrightarrow>
           compressionRatio (calculateMetrics b a)
             = of_nat (nonBlankCount als) / of_nat (nonBlankCount [b]))"
    by blast
  from calculateMetrics_lines [of "[]" b] le lb
  have eb: "originalLines (calculateMetrics [] b) = nonBlankCount [[]]
     \<and> (nonBlankCount [[]] = 0 \<longrightarrow> compressionRatio (calculateMetrics [] b) = 1)"
    by blast
  have 1: "originalLines (calculateMetrics a b) = 2" using ab by (simp add: ca)
  have 2: "refactoredLines (calculateMetrics a b) = 1" using ab by (simp add: cb)
  have 3: "linesReduced (calculateMetrics a b) = 1" using ab by (simp add: ca cb)
  have 4: "compressionRatio (calculateMetrics a b) = 1 / 2" using ab by (simp add: ca cb)
  have 5: "linesReduced (calculateMetrics b a) = 0" using ba by (simp add: ca cb)
  have 6: "compressionRatio (calculateMetrics b a) = 2" using ba by (simp add: ca cb)
  have 7: "originalLines (calculateMetrics [] b) = 0" using eb by (simp add: ce)
  have 8: "compressionRatio (calculateMetrics [] b) = 1" using eb by (simp add: ce)
  from la lb le 1 2 3 4 5 6 7 8 show ?thesis
    unfolding a_def b_def als_def by blast
qed

section \<open>Quality score\<close>

lemma length_80_percent:
  "(of_nat (length r) > of_nat (length s) * (8 / 10 :: rat)) \<longleftrightarrow> 4 * length s < 5 * length r"
proof -
  have "(of_nat (length r) > of_nat (length s) * (8 / 10 :: rat))
        \<longleftrightarrow> (of_nat (4 * length s) :: rat) < of_nat (5 * length r)"
    by (simp add: field_simps)
  also have "\<dots> \<longleftrightarrow> 4 * length s < 5 * length r"
    by (simp only: of_nat_less_iff)
  finally show ?thesis .
qed

text \<open>
  C3, as the code has it. The score starts at 3.0; it gains 0.5 exactly when the refactored
  text contains both \<open>async\<close> and \<open>await\<close> and the original contains \<open>callback\<close>; it gains
  0.3 exactly when the refactored text has more \<open>//\<close> markers than the original; it gains
  0.2 exactly when the refactored length is strictly greater than 80% of the original
  length; the sum is clamped to the interval from 1.0 to 5.0.
\<close>

theorem estimateQualityScore_bonuses:
  "estimateQualityScore originalCode refactoredCode =
     min 5 (max 1 (3
       + (if containsText refactoredCode (lit ''async'')
             \<and> containsText refactoredCode (lit ''await'')
             \<and> containsText originalCode (lit ''callback'') then 5 / 10 else 0)
       + (if countSlashSlash originalCode < countSlashSlash refactoredCode then 3 / 10 else 0)
       + (if 4 * length originalCode < 5 * length refactoredCode then 2 / 10 else 0)))"
  unfolding estimateQualityScore_def Let_def length_80_percent js_includes_iff
  by simp

theorem estimateQualityScore_bonuses_witness:
  "estimateQualityScore (lit ''callback(x)'') (lit ''async await // c'') = 4
   \<and> estimateQualityScore (lit ''aaaaaaaaaa'') (lit ''bbbbbbbbb'') = 3 + 2 / 10
   \<and> estimateQualityScore (lit ''aaaaaaaaaa'') (lit ''bbbbbbbb'') = 3"
proof -
  have a: "containsText (lit ''async await // c'') (lit ''async'')"
    and b: "containsText (lit ''async await // c'') (lit ''await'')"
    and c: "containsText (lit ''callback(x)'') (lit ''callback'')"
    and d: "\<not> containsText (lit ''aaaaaaaaaa'') (lit ''callback'')"
    unfolding js_includes_iff [symmetric] by (simp_all add: lit_def)
  have e: "countSlashSlash (lit ''callback(x)'') < countSlashSlash (lit ''async await // c'')"
    and f: "\<not> countSlashSlash (lit ''aaaaaaaaaa'') < countSlashSlash (lit ''bbbbbbbbb'')"
    and g: "\<not> countSlashSlash (lit ''aaaaaaaaaa'') < countSlashSlash (lit ''bbbbbbbb'')"
    by (simp_all add: lit_def)
  have h: "length (lit ''callback(x)'') = 11" "length (lit ''async await // c'') = 16"
    "length (lit ''aaaaaaaaaa'') = 10" "length (lit ''bbbbbbbbb'') = 9"
    "length (lit ''bbbbbbbb'') = 8"
    by (simp_all add: lit_def)
  show ?thesis
    unfolding estimateQualityScore_bonuses h by (simp add: a b c d e f g)
qed

text \<open>
  The claim as worded grants the 0.2 bonus at exactly 80%: for an original of five code
  units and a refactored text of four, the code's score is 3.0 and the worded score 3.2.
\<close>

theorem estimateQualityScore_at_80_percent:
  "length (lit ''bbbb'') * 10 = 8 * length (lit ''aaaaa'')
   \<and> estimateQualityScore (lit ''aaaaa'') (lit ''bbbb'') = 3
   \<and> spec_qualityScore (lit ''aaaaa'') (lit ''bbbb'') = 3 + 2 / 10"
  by (simp add: estimateQualityScore_def spec_qualityScore_def lit_def Let_def)

text \<open>
  C10. For every pair of texts the score lies between 3.0 and 4.0: the bonuses are not
  negative and add up to at most 1.0, so the clamp to the interval from 1.0 to 5.0 never
  changes the sum.
\<close>

theorem estimateQualityScore_range:
  "3 \<le> estimateQualityScore originalCode refactoredCode
   \<and> estimateQualityScore originalCode refactoredCode \<le> 4"
  by (simp add: estimateQualityScore_def Let_def)

theorem estimateQualityScore_range_witness:
  "3 \<le> estimateQualityScore [] []
   \<and> estimateQualityScore (lit ''callback(x)'') (lit ''async await // c'') \<le> 4"
  using estimateQualityScore_range [of "[]" "[]"]
        estimateQualityScore_range [of "lit ''callback(x)''" "lit ''async await // c''"]
  by simp

section \<open>Cleaning the reply\<close>

lemma length_js_trim: "length (js_trim s) \<le> length s"
proof -
  have "length (js_trim s) \<le> length (dropWhile isTrimSpace s)"
    unfolding js_trim_def using length_dropWhile_le [of isTrimSpace "rev (dropWhile isTrimSpace s)"]
    by simp
  also have "\<dots> \<le> length s" by (rule length_dropWhile_le)
  finally show ?thesis .
qed

lemma trimmed_js_trim: "trimmed (js_trim s)"
proof (cases "js_trim s = []")
  case True
  then show ?thesis by (simp add: trimmed_def)
next
  case False
  define t where "t = dropWhile isTrimSpace s"
  define r where "r = dropWhile isTrimSpace (rev t)"
  have res: "js_trim s = rev r" by (simp add: js_trim_def t_def r_def)
  with False have r: "r \<noteq> []" by simp
  then have "\<not> isTrimSpace (hd r)" unfolding r_def using hd_dropWhile by blast
  then have last: "\<not> isTrimSpace (last (rev r))" using r by (simp add: last_rev)
  have "rev t = takeWhile isTrimSpace (rev t) @ r" by (simp add: r_def)
  then have "rev (rev t) = rev (takeWhile isTrimSpace (rev t) @ r)" by simp
  then have split: "t = rev r @ rev (takeWhile isTrimSpace (rev t))" by simp
  from split r have tne: "t \<noteq> []" by auto
  from split r have "hd t = hd (rev r)" by (metis hd_append2 rev_is_Nil_conv)
  moreover from tne have "\<not> isTrimSpace (hd t)" unfolding t_def using hd_dropWhile by blast
  ultimately have "\<not> isTrimSpace (hd (rev r))" by simp
  with last r show ?thesis by (simp add: trimmed_def res)
qed

lemma js_trim_trimmed: "trimmed s \<Longrightarrow> js_trim s = s"
proof (cases "s = []")
  case True
  then show ?thesis by (simp add: js_trim_def)
next
  case False
  assume "trimmed s"
  with False have h: "\<not> isTrimSpace (hd s)" and l: "\<not> isTrimSpace (last s)"
    by (simp_all add: trimmed_def)
  from False h have "dropWhile isTrimSpace s = s" by (cases s) simp_all
  moreover from False l have "dropWhile isTrimSpace (rev s) = rev s"
    by (cases "rev s") (simp_all add: last_rev [symmetric] hd_rev)
  ultimately show ?thesis by (simp add: js_trim_def)
qed

lemma js_trim_fixed_iff: "js_trim s = s \<longleftrightarrow> trimmed s"
  using trimmed_js_trim [of s] js_trim_trimmed [of s] by auto


lemma length_lit [simp]: "length (lit s) = length s"
  by (simp add: lit_def)

lemma not_isWordChar_LF: "\<not> isWordChar 0xA"
  by (simp add: isWordChar_def)

lemma matchOpeningFence_Some_iff:
  "matchOpeningFence s = Some rest \<longleftrightarrow>
     (\<exists>tag. s = lit ''```'' @ tag @ 0xA # rest \<and> list_all isWordChar tag)"
proof
  assume m: "matchOpeningFence s = Some rest"
  then have "js_startsWith s (lit ''```'')"
    by (auto simp: matchOpeningFence_def split: if_splits)
  then obtain post where s: "s = lit ''```'' @ post" by (auto simp: js_startsWith_iff)
  then have d: "drop 3 s = post" by simp
  from m d have dw: "dropWhile isWordChar post = 0xA # rest"
    by (auto simp: matchOpeningFence_def split: if_splits list.splits)
  have "post = takeWhile isWordChar post @ dropWhile isWordChar post" by simp
  with dw have "post = takeWhile isWordChar post @ 0xA # rest" by simp
  with s have "s = lit ''```'' @ takeWhile isWordChar post @ 0xA # rest" by simp
  moreover have "list_all isWordChar (takeWhile isWordChar post)"
    by (simp add: list_all_iff) (meson set_takeWhileD)
  ultimately show "\<exists>tag. s = lit ''```'' @ tag @ 0xA # rest \<and> list_all isWordChar tag"
    by blast
next
  assume "\<exists>tag. s = lit ''```'' @ tag @ 0xA # rest \<and> list_all isWordChar tag"
  then obtain tag where s: "s = lit ''```'' @ tag @ 0xA # rest"
    and tag: "list_all isWordChar tag" by blast
  from s have st: "js_startsWith s (lit ''```'')" by (auto simp: js_startsWith_iff)
  from s have d: "drop 3 s = tag @ 0xA # rest" by simp
  from tag have "dropWhile isWordChar (tag @ 0xA # rest) = 0xA # rest"
    using not_isWordChar_LF by (simp add: list_all_iff dropWhile_append3)
  with st d show "matchOpeningFence s = Some rest"
    by (simp add: matchOpeningFence_def)
qed

lemma matchOpeningFence_None_iff: "matchOpeningFence s = None \<longleftrightarrow> \<not> startsWithFence s"
proof -
  have "startsWithFence s \<longleftrightarrow> (\<exists>rest. matchOpeningFence s = Some rest)"
    unfolding startsWithFence_def matchOpeningFence_Some_iff by blast
  then show ?thesis by auto
qed

lemma matchOpeningFence_shorter: "matchOpeningFence s = Some rest \<Longrightarrow> length rest < length s"
  by (auto simp: matchOpeningFence_Some_iff)

lemma length_replaceOpeningFence: "length (replaceOpeningFence s) \<le> length s"
  using matchOpeningFence_shorter [of s]
  by (auto simp: replaceOpeningFence_def split: option.splits dest: less_imp_le)

lemma replaceOpeningFence_shorter:
  "startsWithFence s \<Longrightarrow> length (replaceOpeningFence s) < length s"
  using matchOpeningFence_shorter [of s] matchOpeningFence_None_iff [of s]
  by (auto simp: replaceOpeningFence_def split: option.splits)

lemma endsWithFence_iff: "js_endsWith s (0xA # lit ''```'') \<longleftrightarrow> endsWithFence s"
  by (simp add: js_endsWith_iff endsWithFence_def)

lemma length_replaceClosingFence: "length (replaceClosingFence s) \<le> length s"
  by (simp add: replaceClosingFence_def)

lemma replaceClosingFence_shorter:
  "endsWithFence s \<Longrightarrow> length (replaceClosingFence s) < length s"
  by (auto simp: replaceClosingFence_def endsWithFence_iff endsWithFence_def)

text \<open>
  C4, as the code has it. The cleanup step (strip an opening fence line with an optional
  tag, strip a closing fence, trim) leaves a text unchanged exactly when the text is
  already unfenced: trimmed, not starting with a fence line and not ending with a fence.
  Nothing more holds of cleanup outputs than that they are trimmed.
\<close>

theorem cleanFences_fixed_iff:
  "cleanFences s = s \<longleftrightarrow> trimmed s \<and> \<not> startsWithFence s \<and> \<not> endsWithFence s"
proof
  assume fp: "cleanFences s = s"
  have "trimmed (cleanFences s)" unfolding cleanFences_def by (rule trimmed_js_trim)
  with fp have t: "trimmed s" by simp
  have le: "length (cleanFences s) \<le> length (replaceClosingFence (replaceOpeningFence s))"
    unfolding cleanFences_def by (rule length_js_trim)
  have o: "\<not> startsWithFence s"
  proof
    assume "startsWithFence s"
    then have "length (replaceOpeningFence s) < length s" by (rule replaceOpeningFence_shorter)
    with le length_replaceClosingFence [of "replaceOpeningFence s"]
    have "length (cleanFences s) < length s" by linarith
    with fp show False by simp
  qed
  then have ro: "replaceOpeningFence s = s"
    by (simp add: replaceOpeningFence_def matchOpeningFence_None_iff [symmetric])
  have c: "\<not> endsWithFence s"
  proof
    assume "endsWithFence s"
    then have "length (replaceClosingFence s) < length s" by (rule replaceClosingFence_shorter)
    with le ro have "length (cleanFences s) < length s" by simp
    with fp show False by simp
  qed
  from t o c show "trimmed s \<and> \<not> startsWithFence s \<and> \<not> endsWithFence s" by simp
next
  assume h: "trimmed s \<and> \<not> startsWithFence s \<and> \<not> endsWithFence s"
  then have "replaceOpeningFence s = s"
    by (simp add: replaceOpeningFence_def matchOpeningFence_None_iff [symmetric])
  moreover from h have "replaceClosingFence s = s"
    by (simp add: replaceClosingFence_def endsWithFence_iff)
  ultimately show "cleanFences s = s"
    using h by (simp add: cleanFences_def js_trim_trimmed)
qed

text \<open>
  The cleanup step is not idempotent on every text: each pass removes one opening fence
  line and one closing fence. Of a reply fenced twice the first pass leaves a fenced
  text, which is a cleanup output and not a fixed point; the second pass unfences it.
\<close>

theorem cleanFences_not_idempotent:
  "cleanFences (lit ''```js'' @ 0xA # lit ''```js'' @ 0xA # lit ''x'' @ 0xA # lit ''```''
                @ 0xA # lit ''```'')
     = lit ''```js'' @ 0xA # lit ''x'' @ 0xA # lit ''```''
   \<and> cleanFences (lit ''```js'' @ 0xA # lit ''x'' @ 0xA # lit ''```'') = lit ''x''
   \<and> cleanFences (cleanFences (lit ''```js'' @ 0xA # lit ''```js'' @ 0xA # lit ''x'' @ 0xA
                             # lit ''```'' @ 0xA # lit ''```''))
     \<noteq> cleanFences (lit ''```js'' @ 0xA # lit ''```js'' @ 0xA # lit ''x'' @ 0xA # lit ''```''
                    @ 0xA # lit ''```'')"
  by (simp add: cleanFences_def replaceClosingFence_def replaceOpeningFence_def
      matchOpeningFence_def js_endsWith_def js_trim_def isTrimSpace_def isWordChar_def lit_def)

theorem cleanFences_fixed_iff_witness:
  "trimmed (lit ''let x = 1;'') \<and> cleanFences (lit ''let x = 1;'') = lit ''let x = 1;''"
proof -
  have t: "trimmed (lit ''let x = 1;'')"
    by (simp add: trimmed_def lit_def isTrimSpace_def)
  have o: "\<not> startsWithFence (lit ''let x = 1;'')"
    unfolding matchOpeningFence_None_iff [symmetric]
    by (simp add: matchOpeningFence_def lit_def)
  have c: "\<not> endsWithFence (lit ''let x = 1;'')"
    unfolding endsWithFence_iff [symmetric]
    by (simp add: js_endsWith_def lit_def)
  from t o c show ?thesis using cleanFences_fixed_iff [of "lit ''let x = 1;''"] by simp
qed

section \<open>Language detection of the upload route\<close>

text \<open>
  C7. The upload handler infers the language from the file name: a name ending in \<open>.tsx\<close>
  or \<open>.jsx\<close> gives \<open>react\<close>; otherwise a name ending in \<open>.ts\<close> gives \<open>typescript\<close>;
  otherwise a name containing \<open>server\<close> or \<open>api\<close> gives \<open>nodejs\<close>; otherwise the
  language is \<open>javascript\<close>. In particular \<open>api-handler.js\<close> gives \<open>nodejs\<close>, not
  \<open>javascript\<close>.
\<close>

theorem uploadLanguage_cases:
  "(hasSuffix filename (lit ''.tsx'') \<or> hasSuffix filename (lit ''.jsx'')
      \<longrightarrow> uploadLanguage filename = lit ''react'')
   \<and> (\<not> hasSuffix filename (lit ''.tsx'') \<and> \<not> hasSuffix filename (lit ''.jsx'')
        \<and> hasSuffix filename (lit ''.ts'')
      \<longrightarrow> uploadLanguage filename = lit ''typescript'')
   \<and> (\<not> hasSuffix filename (lit ''.tsx'') \<and> \<not> hasSuffix filename (lit ''.jsx'')
        \<and> \<not> hasSuffix filename (lit ''.ts'')
        \<and> (containsText filename (lit ''server'') \<or> containsText filename (lit ''api''))
      \<longrightarrow> uploadLanguage filename = lit ''nodejs'')
   \<and> (\<not> hasSuffix filename (lit ''.tsx'') \<and> \<not> hasSuffix filename (lit ''.jsx'')
        \<and> \<not> hasSuffix filename (lit ''.ts'')
        \<and> \<not> containsText filename (lit ''server'') \<and> \<not> containsText filename (lit ''api'')
      \<longrightarrow> uploadLanguage filename = lit ''javascript'')
   \<and> uploadLanguage (lit ''api-handler.js'') = lit ''nodejs''
   \<and> uploadLanguage (lit ''api-handler.js'') \<noteq> lit ''javascript''"
proof -
  have "uploadLanguage (lit ''api-handler.js'') = lit ''nodejs''"
    by (simp add: uploadLanguage_def js_endsWith_def lit_def)
  moreover have "lit ''nodejs'' \<noteq> lit ''javascript''" by (simp add: lit_def)
  ultimately show ?thesis
    by (simp add: uploadLanguage_def js_endsWith_iff js_includes_iff hasSuffix_def)
qed


theorem uploadLanguage_cases_witness:
  "hasSuffix (lit ''App.tsx'') (lit ''.tsx'')
   \<and> uploadLanguage (lit ''App.tsx'') = lit ''react''
   \<and> hasSuffix (lit ''types.ts'') (lit ''.ts'')
   \<and> uploadLanguage (lit ''types.ts'') = lit ''typescript''
   \<and> containsText (lit ''server.js'') (lit ''server'')
   \<and> uploadLanguage (lit ''server.js'') = lit ''nodejs''
   \<and> uploadLanguage (lit ''index.js'') = lit ''javascript''"
proof -
  have tsx: "hasSuffix (lit ''App.tsx'') (lit ''.tsx'')"
    unfolding hasSuffix_def js_endsWith_iff [symmetric]
    by (simp add: js_endsWith_def lit_def)
  have ts: "\<not> hasSuffix (lit ''types.ts'') (lit ''.tsx'')"
    "\<not> hasSuffix (lit ''types.ts'') (lit ''.jsx'')"
    "hasSuffix (lit ''types.ts'') (lit ''.ts'')"
    unfolding hasSuffix_def js_endsWith_iff [symmetric]
    by (simp_all add: js_endsWith_def lit_def)
  have server: "\<not> hasSuffix (lit ''server.js'') (lit ''.tsx'')"
    "\<not> hasSuffix (lit ''server.js'') (lit ''.jsx'')"
    "\<not> hasSuffix (lit ''server.js'') (lit ''.ts'')"
    unfolding hasSuffix_def js_endsWith_iff [symmetric]
    by (simp_all add: js_endsWith_def lit_def)
  have server': "containsText (lit ''server.js'') (lit ''server'')"
    unfolding js_includes_iff [symmetric] by (simp add: lit_def)
  have index: "\<not> hasSuffix (lit ''index.js'') (lit ''.tsx'')"
    "\<not> hasSuffix (lit ''index.js'') (lit ''.jsx'')"
    "\<not> hasSuffix (lit ''index.js'') (lit ''.ts'')"
    unfolding hasSuffix_def js_endsWith_iff [symmetric]
    by (simp_all add: js_endsWith_def lit_def)
  have index': "\<not> containsText (lit ''index.js'') (lit ''server'')"
    "\<not> containsText (lit ''index.js'') (lit ''api'')"
    unfolding js_includes_iff [symmetric] by (simp_all add: lit_def)
  have 1: "uploadLanguage (lit ''App.tsx'') = lit ''react''"
    using uploadLanguage_cases [of "lit ''App.tsx''"] tsx by blast
  have 2: "uploadLanguage (lit ''types.ts'') = lit ''typescript''"
    using uploadLanguage_cases [of "lit ''types.ts''"] ts by blast
  have 3: "uploadLanguage (lit ''server.js'') = lit ''nodejs''"
    using uploadLanguage_cases [of "lit ''server.js''"] server server' by blast
  have 4: "uploadLanguage (lit ''index.js'') = lit ''javascript''"
    using uploadLanguage_cases [of "lit ''index.js''"] index index' by blast
  from tsx ts(3) server' 1 2 3 4 show ?thesis by blast
qed

section \<open>File filters of the upload routes\<close>

lemma uploadFileFilter_reject:
  assumes "mimetype file \<notin> set allowedTypes"
    and "\<not> (\<exists>ext. ext \<in> set allowedExtensions \<and> hasSuffix (js_toLowerCase (originalname file)) ext)"
  shows "uploadFileFilter file = Inl (lit ''Invalid file type. Only JavaScript files are allowed.'')"
  using assms
  by (simp add: uploadFileFilter_def Let_def list_ex_iff js_endsWith_iff hasSuffix_def)

lemma uploadZipFileFilter_reject:
  assumes "mimetype file \<noteq> lit ''application/zip''"
    and "\<not> hasSuffix (js_toLowerCase (originalname file)) (lit ''.zip'')"
  shows "uploadZipFileFilter file = Inl (lit ''Invalid file type. Only ZIP files are allowed.'')"
  using assms
  by (simp add: uploadZipFileFilter_def Let_def js_endsWith_iff hasSuffix_def)

text \<open>
  The reply to a rejected upload in general: a file whose MIME type is outside the allowed
  types and whose lower-cased name ends in none of the allowed extensions never reaches
  the handler of the single-file route, nor does a file that is neither of type
  \<open>application/zip\<close> nor named \<open>.zip\<close> reach the handler of the zip route. The
  error-handling middleware replies, with status 500, and with the filter's message in
  development mode only.
\<close>

lemma upload_rejection:
  "(mimetype file \<notin> set allowedTypes
      \<and> \<not> (\<exists>ext. ext \<in> set allowedExtensions \<and> hasSuffix (js_toLowerCase (originalname file)) ext)
    \<longrightarrow> (uploadRoute isDevelopment file :: 'u response option)
        = Some (JsonError 500
            (if isDevelopment then lit ''Invalid file type. Only JavaScript files are allowed.''
             else lit ''Internal Server Error'') None))
   \<and> (mimetype file \<noteq> lit ''application/zip''
      \<and> \<not> hasSuffix (js_toLowerCase (originalname file)) (lit ''.zip'')
    \<longrightarrow> (uploadZipRoute isDevelopment file :: 'u response option)
        = Some (JsonError 500
            (if isDevelopment then lit ''Invalid file type. Only ZIP files are allowed.''
             else lit ''Internal Server Error'') None))"
  by (simp add: uploadRoute_def uploadZipRoute_def uploadFileFilter_reject
      uploadZipFileFilter_reject errorMiddleware_def)

text \<open>
  C9. The claim asks that a file outside the allow-list, such as a \<open>.png\<close>, be rejected by
  the single-file route with a 4xx reply that carries an \<open>Invalid file type\<close> message,
  and a file that is no zip by the zip route likewise. The routes reject such files, and
  the filters build that message, but the reply is not what the claim asks: for
  \<open>image.png\<close> of type \<open>image/png\<close> the status is 500 and, outside development mode, the
  message is \<open>Internal Server Error\<close>; in development mode the status is 500 still. A
  text file sent to the zip route fares the same.
\<close>

theorem upload_rejection_status_500:
  "uploadRoute False \<lparr> originalname = lit ''image.png'', mimetype = lit ''image/png'' \<rparr>
     = Some (JsonError 500 (lit ''Internal Server Error'') None :: unit response)
   \<and> uploadRoute True \<lparr> originalname = lit ''image.png'', mimetype = lit ''image/png'' \<rparr>
     = Some (JsonError 500 (lit ''Invalid file type. Only JavaScript files are allowed.'') None
             :: unit response)
   \<and> uploadZipRoute False \<lparr> originalname = lit ''notes.txt'', mimetype = lit ''text/plain'' \<rparr>
     = Some (JsonError 500 (lit ''Internal Server Error'') None :: unit response)"
  by (simp add: uploadRoute_def uploadZipRoute_def uploadFileFilter_def uploadZipFileFilter_def
      errorMiddleware_def allowedTypes_def allowedExtensions_def
      js_endsWith_def js_toLowerCase_def lit_def)


section \<open>Failure paths of the refactor service\<close>

lemma cleanFences_trim_x: "cleanFences (js_trim (lit ''x'')) = lit ''x''"
  by (simp add: cleanFences_def replaceClosingFence_def replaceOpeningFence_def
      matchOpeningFence_def js_endsWith_def js_trim_def isTrimSpace_def lit_def)

text \<open>
  C1, as the code has it. \<open>refactorCode\<close> returns a tagged result on every path. When the
  call to the provider is rejected (network error, timeout, status outside 2xx) the result
  is \<open>{success: false, error: {message, code}}\<close>: the message is the provider's error
  message when the reply has one that is not empty, and the error's own text otherwise;
  the code is the reply's HTTP status when there is a reply with a status other than zero,
  and \<open>UNKNOWN_ERROR\<close> otherwise. A reply without content ends the same way, with the
  message of the \<open>TypeError\<close> and \<open>UNKNOWN_ERROR\<close>. A reply with content gives the
  success result with the cleaned text, its metrics and the provider's usage.
\<close>

theorem refactorCode_failure_paths:
  "((post :: 'u provider) originalCode language settings = Rejected error \<longrightarrow>
      (\<exists>message code.
         refactorCode post originalCode language settings = Failure message code
         \<and> (\<forall>response m. err_response error = Some response
               \<and> data_error_message response = Some m \<and> m \<noteq> [] \<longrightarrow> message = m)
         \<and> (err_response error = None
              \<or> (\<exists>response. err_response error = Some response
                    \<and> (data_error_message response = None \<or> data_error_message response = Some []))
             \<longrightarrow> message = err_message error)
         \<and> (\<forall>response. err_response error = Some response \<and> status response \<noteq> 0
               \<longrightarrow> code = HttpStatus (status response))
         \<and> (err_response error = None
              \<or> (\<exists>response. err_response error = Some response \<and> status response = 0)
             \<longrightarrow> code = UNKNOWN_ERROR)))
   \<and> (post originalCode language settings = Resolved (NoContent m') usage \<longrightarrow>
        refactorCode post originalCode language settings = Failure m' UNKNOWN_ERROR)
   \<and> (post originalCode language settings = Resolved (Content text) usage \<longrightarrow>
        refactorCode post originalCode language settings
          = Success (cleanFences (js_trim text))
              (calculateMetrics originalCode (cleanFences (js_trim text))) usage)"
  by (auto simp: refactorCode_def failureOf_def Let_def split: option.splits)


theorem refactorCode_failure_paths_witness:
  "refactorCode
     (\<lambda>c l s. Rejected \<lparr> err_message = lit ''Request failed with status code 401'',
                         err_response = Some \<lparr> status = 401,
                           data_error_message = Some (lit ''Invalid API Key'') \<rparr> \<rparr>)
     (lit ''f()'') (lit ''javascript'') noSettings
     = (Failure (lit ''Invalid API Key'') (HttpStatus 401) :: unit refactor_result)
   \<and> refactorCode
     (\<lambda>c l s. Rejected \<lparr> err_message = lit ''timeout of 30000ms exceeded'', err_response = None \<rparr>)
     (lit ''f()'') (lit ''javascript'') noSettings
     = (Failure (lit ''timeout of 30000ms exceeded'') UNKNOWN_ERROR :: unit refactor_result)
   \<and> refactorCode (\<lambda>c l s. Resolved (NoContent (lit ''no choices'')) ())
     (lit ''f()'') (lit ''javascript'') noSettings
     = Failure (lit ''no choices'') UNKNOWN_ERROR
   \<and> refactorCode (\<lambda>c l s. Resolved (Content (lit ''x'')) ())
     (lit ''f()'') (lit ''javascript'') noSettings
     = Success (lit ''x'') (calculateMetrics (lit ''f()'') (lit ''x'')) ()"
proof -
  define r401 where
    "r401 = \<lparr> status = 401, data_error_message = Some (lit ''Invalid API Key'') \<rparr>"
  define e401 where
    "e401 = \<lparr> err_message = lit ''Request failed with status code 401'', err_response = Some r401 \<rparr>"
  define etime where
    "etime = \<lparr> err_message = lit ''timeout of 30000ms exceeded'', err_response = None \<rparr>"
  have ne: "lit ''Invalid API Key'' \<noteq> []" by (simp add: lit_def)
  have 1: "refactorCode (\<lambda>c l s. Rejected e401) (lit ''f()'') (lit ''javascript'') noSettings
             = (Failure (lit ''Invalid API Key'') (HttpStatus 401) :: unit refactor_result)"
    using refactorCode_failure_paths
      [where 'u = unit, of "\<lambda>c l s. Rejected e401" "lit ''f()''" "lit ''javascript''" noSettings e401]
      ne
    by (auto simp: e401_def r401_def)
  have 2: "refactorCode (\<lambda>c l s. Rejected etime) (lit ''f()'') (lit ''javascript'') noSettings
             = (Failure (lit ''timeout of 30000ms exceeded'') UNKNOWN_ERROR :: unit refactor_result)"
    using refactorCode_failure_paths
      [where 'u = unit, of "\<lambda>c l s. Rejected etime" "lit ''f()''" "lit ''javascript''" noSettings etime]
    by (auto simp: etime_def)
  have 3: "refactorCode (\<lambda>c l s. Resolved (NoContent (lit ''no choices'')) ())
             (lit ''f()'') (lit ''javascript'') noSettings = Failure (lit ''no choices'') UNKNOWN_ERROR"
    using refactorCode_failure_paths
      [of "\<lambda>c l s. Resolved (NoContent (lit ''no choices'')) ()" "lit ''f()''" "lit ''javascript''"
          noSettings _ "lit ''no choices''" "()"]
    by simp
  have 4: "refactorCode (\<lambda>c l s. Resolved (Content (lit ''x'')) ())
             (lit ''f()'') (lit ''javascript'') noSettings
             = Success (lit ''x'') (calculateMetrics (lit ''f()'') (lit ''x'')) ()"
    using refactorCode_failure_paths
      [of "\<lambda>c l s. Resolved (Content (lit ''x'')) ()" "lit ''f()''" "lit ''javascript''"
          noSettings _ _ "()" "lit ''x''"]
    by (simp add: cleanFences_trim_x)
  from 1 2 3 4 show ?thesis unfolding e401_def r401_def etime_def by blast
qed

text \<open>
  The claim as worded takes the provider's message whenever it is present. A reply whose
  error message is the empty string is present, and the code falls back to the error's
  own text.
\<close>

theorem refactorCode_empty_provider_message:
  "refactorCode
     (\<lambda>c l s. Rejected \<lparr> err_message = lit ''Request failed with status code 500'',
                         err_response = Some \<lparr> status = 500, data_error_message = Some [] \<rparr> \<rparr>)
     (lit ''f()'') (lit ''javascript'') noSettings
     = (Failure (lit ''Request failed with status code 500'') (HttpStatus 500) :: unit refactor_result)
   \<and> spec_failureOf \<lparr> err_message = lit ''Request failed with status code 500'',
                       err_response = Some \<lparr> status = 500, data_error_message = Some [] \<rparr> \<rparr>
     = (Failure [] (HttpStatus 500) :: unit refactor_result)"
  by (simp add: refactorCode_def failureOf_def spec_failureOf_def lit_def)

section \<open>The single-snippet route\<close>

text \<open>
  C8, as the code has it. The route answers 400 whenever \<open>code\<close> or \<open>language\<close> is absent
  or the empty string. Otherwise it calls the service and answers a failure with status
  500 and the service's error message as \<open>details\<close>, and a success with the envelope of
  \<open>refactoredCode\<close>, \<open>metrics\<close> and \<open>tokenUsage\<close>.
\<close>

theorem postRefactor_envelopes:
  "(req_code body = None \<or> req_code body = Some [] \<or> req_language body = None
      \<or> req_language body = Some []
    \<longrightarrow> postRefactor post body = JsonError 400 (lit ''Code and language are required'') None)
   \<and> (\<forall>code language.
        req_code body = Some code \<and> code \<noteq> [] \<and> req_language body = Some language \<and> language \<noteq> []
        \<longrightarrow> (\<forall>m c. refactorCode post code language
                     (case req_settings body of None \<Rightarrow> noSettings | Some s \<Rightarrow> s) = Failure m c
               \<longrightarrow> postRefactor post body = JsonError 500 (lit ''Refactoring failed'') (Some m))
          \<and> (\<forall>cleanedCode ms usage. refactorCode post code language
                     (case req_settings body of None \<Rightarrow> noSettings | Some s \<Rightarrow> s)
                   = Success cleanedCode ms usage
               \<longrightarrow> postRefactor post body = JsonRefactored cleanedCode ms usage))"
  by (auto simp: postRefactor_def split: option.splits)

theorem postRefactor_envelopes_witness:
  "postRefactor (\<lambda>c l s. Resolved (Content (lit ''x'')) ())
     \<lparr> req_code = None, req_language = Some (lit ''javascript''), req_settings = None \<rparr>
     = JsonError 400 (lit ''Code and language are required'') None
   \<and> postRefactor (\<lambda>c l s. Resolved (Content (lit ''x'')) ())
     \<lparr> req_code = Some (lit ''f()''), req_language = Some (lit ''javascript''), req_settings = None \<rparr>
     = JsonRefactored (lit ''x'') (calculateMetrics (lit ''f()'') (lit ''x'')) ()
   \<and> postRefactor (\<lambda>c l s. Resolved (NoContent (lit ''no choices'')) ())
     \<lparr> req_code = Some (lit ''f()''), req_language = Some (lit ''javascript''), req_settings = None \<rparr>
     = JsonError 500 (lit ''Refactoring failed'') (Some (lit ''no choices''))"
proof -
  define ok :: "unit provider" where "ok = (\<lambda>c l s. Resolved (Content (lit ''x'')) ())"
  define bad :: "unit provider" where "bad = (\<lambda>c l s. Resolved (NoContent (lit ''no choices'')) ())"
  define absent where
    "absent = \<lparr> req_code = None, req_language = Some (lit ''javascript''), req_settings = None \<rparr>"
  define body where
    "body = \<lparr> req_code = Some (lit ''f()''), req_language = Some (lit ''javascript''),
              req_settings = None \<rparr>"
  have ne: "lit ''f()'' \<noteq> []" "lit ''javascript'' \<noteq> []" by (simp_all add: lit_def)
  have 1: "postRefactor ok absent = JsonError 400 (lit ''Code and language are required'') None"
    using postRefactor_envelopes [of absent ok] by (simp add: absent_def)
  have s: "refactorCode ok (lit ''f()'') (lit ''javascript'') noSettings
             = Success (lit ''x'') (calculateMetrics (lit ''f()'') (lit ''x'')) ()"
    by (simp add: refactorCode_def ok_def cleanFences_trim_x Let_def)
  have f: "refactorCode bad (lit ''f()'') (lit ''javascript'') noSettings
             = Failure (lit ''no choices'') UNKNOWN_ERROR"
    by (simp add: refactorCode_def bad_def failureOf_def)
  have b: "req_code body = Some (lit ''f()'')" "req_language body = Some (lit ''javascript'')"
    "req_settings body = None"
    by (simp_all add: body_def)
  have 2: "postRefactor ok body
             = JsonRefactored (lit ''x'') (calculateMetrics (lit ''f()'') (lit ''x'')) ()"
    using postRefactor_envelopes [of body ok] ne s b by simp
  have 3: "postRefactor bad body = JsonError 500 (lit ''Refactoring failed'') (Some (lit ''no choices''))"
    using postRefactor_envelopes [of body bad] ne f b by simp
  from 1 2 3 show ?thesis unfolding ok_def bad_def absent_def body_def by blast
qed

text \<open>
  The claim as worded delegates every request that has both fields. A request whose
  \<open>code\<close> (or \<open>language\<close>) is the empty string has the field, and is rejected with 400
  although the service would have answered.
\<close>

theorem postRefactor_empty_fields_rejected:
  "postRefactor (\<lambda>c l s. Resolved (Content (lit ''x'')) ())
     \<lparr> req_code = Some [], req_language = Some (lit ''javascript''), req_settings = None \<rparr>
     = JsonError 400 (lit ''Code and language are required'') None
   \<and> spec_postRefactor (\<lambda>c l s. Resolved (Content (lit ''x'')) ())
     \<lparr> req_code = Some [], req_language = Some (lit ''javascript''), req_settings = None \<rparr>
     = JsonRefactored (lit ''x'') (calculateMetrics [] (lit ''x'')) ()
   \<and> postRefactor (\<lambda>c l s. Resolved (Content (lit ''x'')) ())
     \<lparr> req_code = Some (lit ''f()''), req_language = Some [], req_settings = None \<rparr>
     = JsonError 400 (lit ''Code and language are required'') None
   \<and> spec_postRefactor (\<lambda>c l s. Resolved (Content (lit ''x'')) ())
     \<lparr> req_code = Some (lit ''f()''), req_language = Some [], req_settings = None \<rparr>
     = JsonRefactored (lit ''x'') (calculateMetrics (lit ''f()'') (lit ''x'')) ()"
  by (simp add: postRefactor_def spec_postRefactor_def refactorCode_def cleanFences_trim_x Let_def)

section \<open>The animated batch route\<close>

lemma animatedLoop_eq:
  "animatedLoop posts i files results
     = results @ map (\<lambda>k. animatedEntry
          (refactorCode (posts (i + k)) (content (files ! k)) (batchLanguage (name (files ! k))) noSettings)
          (files ! k)) [0..<length files]"
proof (induction files arbitrary: i results)
  case Nil
  show ?case by simp
next
  case (Cons f fs)
  have "map (\<lambda>k. animatedEntry
          (refactorCode (posts (i + k)) (content ((f # fs) ! k))
             (batchLanguage (name ((f # fs) ! k))) noSettings)
          ((f # fs) ! k)) [0..<length (f # fs)]
        = animatedEntry (refactorCode (posts i) (content f) (batchLanguage (name f)) noSettings) f
          # map (\<lambda>k. animatedEntry
              (refactorCode (posts (Suc i + k)) (content (fs ! k))
                 (batchLanguage (name (fs ! k))) noSettings)
              (fs ! k)) [0..<length fs]"
    by (simp add: map_upt_Suc del: upt_Suc)
  then show ?case by (simp add: Cons.IH Let_def)
qed

lemma animatedLoop_results:
  "animatedLoop posts 0 fs []
     = map (\<lambda>k. animatedEntry (batchResult posts fs k) (fs ! k)) [0..<length fs]"
  by (simp add: animatedLoop_eq batchResult_def)


lemma unknown_error_nonempty: "lit ''Unknown error'' \<noteq> []"
  by (simp add: lit_def)

lemma entryMessage_nonempty: "entryMessage result \<noteq> []"
  by (simp add: entryMessage_def unknown_error_nonempty split: refactor_result.splits)

lemma animatedEntry_name: "entry_name (animatedEntry result f) = name f"
  by (simp add: animatedEntry_def split: refactor_result.splits)

lemma animatedEntry_failed:
  "entryFailed result \<Longrightarrow>
     entry_refactoredCode (animatedEntry result f) = content f
     \<and> entry_error (animatedEntry result f) = Some (entryMessage result)"
  by (auto simp: animatedEntry_def entryFailed_def entryMessage_def split: refactor_result.splits)

lemma animatedEntry_succeeded:
  "\<not> entryFailed result \<Longrightarrow>
     (\<exists>ms usage. result = Success (entry_refactoredCode (animatedEntry result f)) ms usage)
     \<and> entry_error (animatedEntry result f) = None"
  by (auto simp: animatedEntry_def entryFailed_def split: refactor_result.splits)

lemma animatedEntry_error_truthy:
  "\<not> js_not (entry_error (animatedEntry result f)) \<longleftrightarrow> entryFailed result"
proof (cases "entryFailed result")
  case True
  then show ?thesis
    using animatedEntry_failed [of result f] entryMessage_nonempty [of result]
    by (simp add: js_not_def)
next
  case False
  then show ?thesis
    using animatedEntry_succeeded [of result f] by (simp add: js_not_def)
qed

lemma cleanFences_trim_Nil: "cleanFences (js_trim []) = []"
  by (simp add: cleanFences_def replaceClosingFence_def replaceOpeningFence_def
      matchOpeningFence_def js_endsWith_def js_trim_def lit_def)

text \<open>
  C5, as the code has it. For every non-empty list of files the animated route makes one
  entry per file, in order, under the file's name. An entry fails when the service reports
  a failure or returns empty code: it then keeps the original content and carries a
  non-empty error, the service's message or \<open>Unknown error\<close>. Every other entry carries
  the refactored code and a null error. If every entry failed the reply is a 500 whose
  details are the entries' errors joined by a semicolon and a space; otherwise the reply
  is the list of entries, failed ones included.
\<close>

theorem postRefactorZipAnimated_entries:
  assumes "files \<noteq> []"
  shows "\<exists>results. length results = length files
    \<and> (\<forall>i<length files.
          entry_name (results ! i) = name (files ! i)
          \<and> (entryFailed (batchResult posts files i) \<longrightarrow>
                entry_refactoredCode (results ! i) = content (files ! i)
                \<and> entry_error (results ! i) = Some (entryMessage (batchResult posts files i))
                \<and> entryMessage (batchResult posts files i) \<noteq> [])
          \<and> (\<not> entryFailed (batchResult posts files i) \<longrightarrow>
                (\<exists>ms usage. batchResult posts files i
                   = Success (entry_refactoredCode (results ! i)) ms usage)
                \<and> entry_error (results ! i) = None))
    \<and> ((\<forall>i<length files. entryFailed (batchResult posts files i)) \<longrightarrow>
          postRefactorZipAnimated posts (Some files)
            = JsonError 500 (lit ''All files failed to refactor'')
                (Some (js_join (lit ''; '')
                   (map (\<lambda>i. Some (entryMessage (batchResult posts files i))) [0..<length files]))))
    \<and> (\<not> (\<forall>i<length files. entryFailed (batchResult posts files i)) \<longrightarrow>
          postRefactorZipAnimated posts (Some files) = JsonFiles results)"
proof -
  define results where
    "results = map (\<lambda>k. animatedEntry (batchResult posts files k) (files ! k)) [0..<length files]"
  have loop: "animatedLoop posts 0 files [] = results"
    by (simp add: results_def animatedLoop_results)
  have len: "length results = length files" by (simp add: results_def)
  have nth: "results ! i = animatedEntry (batchResult posts files i) (files ! i)"
    if "i < length files" for i
    using that by (simp add: results_def)
  have entries: "\<forall>i<length files.
          entry_name (results ! i) = name (files ! i)
          \<and> (entryFailed (batchResult posts files i) \<longrightarrow>
                entry_refactoredCode (results ! i) = content (files ! i)
                \<and> entry_error (results ! i) = Some (entryMessage (batchResult posts files i))
                \<and> entryMessage (batchResult posts files i) \<noteq> [])
          \<and> (\<not> entryFailed (batchResult posts files i) \<longrightarrow>
                (\<exists>ms usage. batchResult posts files i
                   = Success (entry_refactoredCode (results ! i)) ms usage)
                \<and> entry_error (results ! i) = None)"
  proof (intro allI impI)
    fix i
    assume i: "i < length files"
    show "entry_name (results ! i) = name (files ! i)
          \<and> (entryFailed (batchResult posts files i) \<longrightarrow>
                entry_refactoredCode (results ! i) = content (files ! i)
                \<and> entry_error (results ! i) = Some (entryMessage (batchResult posts files i))
                \<and> entryMessage (batchResult posts files i) \<noteq> [])
          \<and> (\<not> entryFailed (batchResult posts files i) \<longrightarrow>
                (\<exists>ms usage. batchResult posts files i
                   = Success (entry_refactoredCode (results ! i)) ms usage)
                \<and> entry_error (results ! i) = None)"
      using animatedEntry_failed [of "batchResult posts files i" "files ! i"]
        animatedEntry_succeeded [of "batchResult posts files i" "files ! i"]
      by (simp add: nth [OF i] animatedEntry_name entryMessage_nonempty)
  qed
  have all: "list_all (\<lambda>f. \<not> js_not (entry_error f)) results
               \<longleftrightarrow> (\<forall>i<length files. entryFailed (batchResult posts files i))"
    by (simp add: list_all_length len nth animatedEntry_error_truthy)
  have errs: "map entry_error results
                = map (\<lambda>i. Some (entryMessage (batchResult posts files i))) [0..<length files]"
    if "\<forall>i<length files. entryFailed (batchResult posts files i)"
    using that by (simp add: results_def animatedEntry_failed)
  have resp: "postRefactorZipAnimated posts (Some files)
        = (if (\<forall>i<length files. entryFailed (batchResult posts files i))
           then JsonError 500 (lit ''All files failed to refactor'')
                  (Some (js_join (lit ''; '') (map entry_error results)))
           else JsonFiles results)"
    using assms by (simp add: postRefactorZipAnimated_def loop Let_def all)
  from len entries resp errs show ?thesis by (intro exI [of _ results]) simp
qed


theorem postRefactorZipAnimated_entries_witness:
  "\<exists>results.
     postRefactorZipAnimated
       (\<lambda>i c l s. if i = 0
          then Rejected \<lparr> err_message = lit ''Request failed with status code 429'',
                 err_response = Some \<lparr> status = 429,
                   data_error_message = Some (lit ''Rate limit reached'') \<rparr> \<rparr>
          else Resolved (Content (lit ''x'')) ())
       (Some [\<lparr> name = lit ''a.js'', content = lit ''f()'' \<rparr>,
              \<lparr> name = lit ''b.ts'', content = lit ''g()'' \<rparr>])
       = JsonFiles results
     \<and> length results = 2
     \<and> entry_name (results ! 0) = lit ''a.js''
     \<and> entry_refactoredCode (results ! 0) = lit ''f()''
     \<and> entry_error (results ! 0) = Some (lit ''Rate limit reached'')
     \<and> entry_name (results ! Suc 0) = lit ''b.ts''
     \<and> entry_refactoredCode (results ! Suc 0) = lit ''x''
     \<and> entry_error (results ! Suc 0) = None"
proof -
  define posts :: "nat \<Rightarrow> unit provider" where
    "posts = (\<lambda>i c l s. if i = 0
          then Rejected \<lparr> err_message = lit ''Request failed with status code 429'',
                 err_response = Some \<lparr> status = 429,
                   data_error_message = Some (lit ''Rate limit reached'') \<rparr> \<rparr>
          else Resolved (Content (lit ''x'')) ())"
  define files where
    "files = [\<lparr> name = lit ''a.js'', content = lit ''f()'' \<rparr>,
              \<lparr> name = lit ''b.ts'', content = lit ''g()'' \<rparr>]"
  have ne: "files \<noteq> []" and len: "length files = 2"
    and f0: "files ! 0 = \<lparr> name = lit ''a.js'', content = lit ''f()'' \<rparr>"
    and f1: "files ! Suc 0 = \<lparr> name = lit ''b.ts'', content = lit ''g()'' \<rparr>"
    by (simp_all add: files_def)
  have msg: "lit ''Rate limit reached'' \<noteq> []" by (simp add: lit_def)
  have r0: "batchResult posts files 0 = Failure (lit ''Rate limit reached'') (HttpStatus 429)"
    by (simp add: batchResult_def refactorCode_def failureOf_def posts_def msg)
  have r1: "batchResult posts files (Suc 0)
              = Success (lit ''x'') (calculateMetrics (lit ''g()'') (lit ''x'')) ()"
    by (simp add: batchResult_def refactorCode_def posts_def f1 Let_def cleanFences_trim_x)
  have x: "lit ''x'' \<noteq> []" by (simp add: lit_def)
  have e0: "entryFailed (batchResult posts files 0)"
    and m0: "entryMessage (batchResult posts files 0) = lit ''Rate limit reached''"
    and e1: "\<not> entryFailed (batchResult posts files (Suc 0))"
    by (simp_all add: r0 r1 entryFailed_def entryMessage_def msg x)
  have some: "\<not> (\<forall>i<length files. entryFailed (batchResult posts files i))"
  proof
    assume "\<forall>i<length files. entryFailed (batchResult posts files i)"
    moreover have "Suc 0 < length files" by (simp add: len)
    ultimately have "entryFailed (batchResult posts files (Suc 0))" by blast
    with e1 show False by simp
  qed
  from postRefactorZipAnimated_entries [OF ne, of posts]
  obtain results where l: "length results = length files"
    and en: "\<forall>i<length files.
          entry_name (results ! i) = name (files ! i)
          \<and> (entryFailed (batchResult posts files i) \<longrightarrow>
                entry_refactoredCode (results ! i) = content (files ! i)
                \<and> entry_error (results ! i) = Some (entryMessage (batchResult posts files i))
                \<and> entryMessage (batchResult posts files i) \<noteq> [])
          \<and> (\<not> entryFailed (batchResult posts files i) \<longrightarrow>
                (\<exists>ms usage. batchResult posts files i
                   = Success (entry_refactoredCode (results ! i)) ms usage)
                \<and> entry_error (results ! i) = None)"
    and resp: "\<not> (\<forall>i<length files. entryFailed (batchResult posts files i)) \<longrightarrow>
          postRefactorZipAnimated posts (Some files) = JsonFiles results"
    by blast
  have i0: "0 < length files" and i1: "Suc 0 < length files" by (simp_all add: len)
  from en i0 have en0: "entry_name (results ! 0) = name (files ! 0)
      \<and> (entryFailed (batchResult posts files 0) \<longrightarrow>
                entry_refactoredCode (results ! 0) = content (files ! 0)
                \<and> entry_error (results ! 0) = Some (entryMessage (batchResult posts files 0))
                \<and> entryMessage (batchResult posts files 0) \<noteq> [])"
    by blast
  from en i1 have en1: "entry_name (results ! Suc 0) = name (files ! Suc 0)
      \<and> (\<not> entryFailed (batchResult posts files (Suc 0)) \<longrightarrow>
                (\<exists>ms usage. batchResult posts files (Suc 0)
                   = Success (entry_refactoredCode (results ! Suc 0)) ms usage)
                \<and> entry_error (results ! Suc 0) = None)"
    by blast
  have n0: "entry_name (results ! 0) = lit ''a.js''" using en0 by (simp add: f0)
  have c0: "entry_refactoredCode (results ! 0) = lit ''f()''" using en0 e0 by (simp add: f0)
  have er0: "entry_error (results ! 0) = Some (lit ''Rate limit reached'')"
    using en0 e0 by (simp add: m0)
  have n1: "entry_name (results ! Suc 0) = lit ''b.ts''" using en1 by (simp add: f1)
  from en1 e1 obtain ms usage where
    "batchResult posts files (Suc 0) = Success (entry_refactoredCode (results ! Suc 0)) ms usage"
    by blast
  with r1 have c1: "entry_refactoredCode (results ! Suc 0) = lit ''x''" by simp
  from en1 e1 have er1: "entry_error (results ! Suc 0) = None" by blast
  from l len have l2: "length results = 2" by simp
  from resp some have "postRefactorZipAnimated posts (Some files) = JsonFiles results" by blast
  with l2 n0 c0 er0 n1 c1 er1 show ?thesis unfolding posts_def files_def by blast
qed

text \<open>
  The claim as worded counts an entry as failed when the service fails. When the provider
  answers with empty content the service succeeds, yet the entry carries the error
  \<open>Unknown error\<close>, and a batch of that one file is answered with a 500.
\<close>

theorem postRefactorZipAnimated_empty_reply:
  "refactorCode (\<lambda>c l s. Resolved (Content []) ()) (lit ''f()'') (lit ''javascript'') noSettings
     = Success [] (calculateMetrics (lit ''f()'') []) ()
   \<and> postRefactorZipAnimated (\<lambda>i c l s. Resolved (Content []) ())
       (Some [\<lparr> name = lit ''a.js'', content = lit ''f()'' \<rparr>])
     = JsonError 500 (lit ''All files failed to refactor'') (Some (lit ''Unknown error''))
   \<and> spec_postRefactorZipAnimated (\<lambda>i c l s. Resolved (Content []) ())
       [\<lparr> name = lit ''a.js'', content = lit ''f()'' \<rparr>]
     = JsonFiles [\<lparr> entry_name = lit ''a.js'', entry_refactoredCode = [], entry_error = None \<rparr>]"
  by (simp add: postRefactorZipAnimated_def spec_postRefactorZipAnimated_def batchResult_def
      refactorCode_def animatedEntry_def spec_animatedEntry_def js_not_def Let_def
      cleanFences_trim_Nil unknown_error_nonempty)

section \<open>The archive batch route\<close>


















end
